theory Spec2Isabelle
  imports Complex_Main "HOL-Library.Char_ord" "HOL-Library.List_Lexorder" "HOL-Library.Word"
begin

unbundle bit_operations_syntax

section \<open>Data model of \<^verbatim>\<open>recommendations.py\<close>\<close>

text \<open>
  A Python \<^verbatim>\<open>str\<close> is modelled by its UTF-8 byte sequence, a \<^typ>\<open>string\<close>. Byte-wise
  lexicographic order on UTF-8 coincides with Python's code-point order on \<^verbatim>\<open>str\<close>, so
  \<open>\<le>\<close> on \<^typ>\<open>string\<close> (from \<open>Char_ord\<close> and \<open>List_Lexorder\<close>) is the order that
  \<^verbatim>\<open>sort_values\<close> uses on a column of strings. Lone surrogates, which
  \<^verbatim>\<open>encode("utf-8", errors="ignore")\<close> would drop, have no UTF-8 form and are outside the model.

  A cell of the data frame is either a string or pandas' missing value.
\<close>

datatype cell = NaN | Str string

text \<open>
  A data frame is its list of column names and its rows, each row holding one cell per column
  in column order. A row shorter than the header reads as missing in the columns it lacks,
  as \<^verbatim>\<open>pd.read_csv\<close> pads it.
\<close>

record dataframe =
  columns :: "string list"
  rows :: "cell list list"

text \<open>
  The exceptions a run can end with: \<open>SchemaError\<close> is the \<^verbatim>\<open>ValueError\<close> raised by the
  normalizer, \<open>ArrayError\<close> the \<^verbatim>\<open>ValueError\<close> of scikit-learn's input validation,
  \<open>KeyError\<close> and \<open>IndexError\<close> those of \<^verbatim>\<open>df.at\<close> and of array indexing.
\<close>

datatype error = SchemaError | ArrayError | KeyError | IndexError

fun col_index :: "string list \<Rightarrow> string \<Rightarrow> nat option" where
  "col_index [] name = None"
| "col_index (c # cs) name =
     (if c = name then Some 0 else map_option Suc (col_index cs name))"

definition cell_at :: "nat \<Rightarrow> cell list \<Rightarrow> cell" where
  "cell_at i r = (if i < length r then r ! i else NaN)"

text \<open>\<^verbatim>\<open>row.get(name, "")\<close>: the cell when the column exists, \<open>None\<close> for the default.\<close>

definition row_get :: "string list \<Rightarrow> cell list \<Rightarrow> string \<Rightarrow> cell option" where
  "row_get cols r name = map_option (\<lambda>i. cell_at i r) (col_index cols name)"

subsection \<open>Normalizing the table\<close>

text \<open>\<^verbatim>\<open>df.dropna(subset=["url"])\<close> on the column at index \<open>i\<close>.\<close>

definition dropna :: "nat \<Rightarrow> cell list list \<Rightarrow> cell list list" where
  "dropna i rs = filter (\<lambda>r. cell_at i r \<noteq> NaN) rs"

text \<open>
  \<^verbatim>\<open>drop_duplicates(subset=["url"])\<close> with pandas' default \<^verbatim>\<open>keep="first"\<close>: scan the rows
  in their current order, remembering the keys already seen.
\<close>

fun drop_dups_seen :: "('a \<Rightarrow> 'k) \<Rightarrow> 'k list \<Rightarrow> 'a list \<Rightarrow> 'a list" where
  "drop_dups_seen key seen [] = []"
| "drop_dups_seen key seen (x # xs) =
     (if key x \<in> set seen then drop_dups_seen key seen xs
      else x # drop_dups_seen key (key x # seen) xs)"

definition drop_duplicates :: "nat \<Rightarrow> cell list list \<Rightarrow> cell list list" where
  "drop_duplicates i rs = drop_dups_seen (cell_at i) [] rs"

text \<open>The string a cell sorts by; after \<open>dropna\<close> every key cell is a string.\<close>

fun cell_str :: "cell \<Rightarrow> string" where
  "cell_str (Str s) = s"
| "cell_str NaN = []"

definition sort_values :: "nat \<Rightarrow> cell list list \<Rightarrow> cell list list" where
  "sort_values i rs = sort_key (\<lambda>r. cell_str (cell_at i r)) rs"

definition ensure_unique_and_ordered :: "dataframe \<Rightarrow> error + dataframe" where
  "ensure_unique_and_ordered df =
     (case col_index (columns df) ''url'' of
        None \<Rightarrow> Inl SchemaError
      | Some i \<Rightarrow> Inr (df\<lparr>rows := sort_values i (drop_duplicates i (dropna i (rows df)))\<rparr>))"

text \<open>\<^verbatim>\<open>df["url"]\<close> of a normalized frame, as strings.\<close>

definition url_column :: "dataframe \<Rightarrow> string list" where
  "url_column df =
     (case col_index (columns df) ''url'' of
        None \<Rightarrow> []
      | Some i \<Rightarrow> map (\<lambda>r. cell_str (cell_at i r)) (rows df))"

text \<open>\<^verbatim>\<open>df.head(MAX_ARTICLES)\<close>, guarded by \<^verbatim>\<open>if MAX_ARTICLES:\<close> (false for None and for 0).\<close>

definition limit_articles :: "nat option \<Rightarrow> dataframe \<Rightarrow> dataframe" where
  "limit_articles m df =
     (case m of
        None \<Rightarrow> df
      | Some k \<Rightarrow> if k = 0 then df else df\<lparr>rows := take k (rows df)\<rparr>)"

subsection \<open>Combined text\<close>

text \<open>
  \<^verbatim>\<open>str(row.get(name, "") or "")\<close>: an absent column gives the default \<^verbatim>\<open>""\<close>; a string cell
  gives itself; a missing value is a float NaN, which is truthy, so the result is
  \<^verbatim>\<open>str(nan) = "nan"\<close>.
\<close>

fun str_or_empty :: "cell option \<Rightarrow> string" where
  "str_or_empty None = []"
| "str_or_empty (Some NaN) = ''nan''"
| "str_or_empty (Some (Str s)) = s"

text \<open>The ASCII characters that \<^verbatim>\<open>str.strip()\<close> removes (non-ASCII white space is not modelled).\<close>

definition py_isspace :: "char \<Rightarrow> bool" where
  "py_isspace c = (let n = (of_char c :: nat) in (9 \<le> n \<and> n \<le> 13) \<or> (28 \<le> n \<and> n \<le> 32))"

definition strip :: "string \<Rightarrow> string" where
  "strip s = rev (dropWhile py_isspace (rev (dropWhile py_isspace s)))"

fun join :: "string \<Rightarrow> string list \<Rightarrow> string" where
  "join sep [] = []"
| "join sep [p] = p"
| "join sep (p # q # ps) = p @ sep @ join sep (q # ps)"

definition combine_text :: "string list \<Rightarrow> cell list \<Rightarrow> string" where
  "combine_text cols row =
     (let parts = [str_or_empty (row_get cols row ''title''),
                   str_or_empty (row_get cols row ''excerpt''),
                   str_or_empty (row_get cols row ''keywords'')]
      in join ''. '' (map strip (filter (\<lambda>p. strip p \<noteq> []) parts)))"

subsection \<open>The signature\<close>

text \<open>
  The MD5 hasher is modelled by the bytes fed to it so far; \<^verbatim>\<open>update\<close> appends. The digest
  function itself belongs to \<^verbatim>\<open>hashlib\<close> and is a parameter, a function from the byte
  stream to 128 bits.
\<close>

definition hasher_update :: "string \<Rightarrow> string \<Rightarrow> string" where
  "hasher_update h b = h @ b"

fun feed_pairs :: "string \<Rightarrow> (string \<times> string) list \<Rightarrow> string" where
  "feed_pairs h [] = h"
| "feed_pairs h ((u, t) # ps) =
     feed_pairs
       (hasher_update (hasher_update (hasher_update (hasher_update h [CHR 0x00]) u) [CHR 0x00]) t)
       ps"

definition signature_stream :: "string \<Rightarrow> string list \<Rightarrow> string list \<Rightarrow> string" where
  "signature_stream model_name urls texts = feed_pairs (hasher_update [] model_name) (zip urls texts)"

definition hex_char :: "nat \<Rightarrow> char" where
  "hex_char n = ''0123456789abcdef'' ! (n mod 16)"

definition hexdigest :: "128 word \<Rightarrow> string" where
  "hexdigest w = map (\<lambda>i. hex_char (unat (drop_bit (4 * i) w AND 15))) (rev [0..<32])"

definition dataset_signature ::
  "(string \<Rightarrow> 128 word) \<Rightarrow> string list \<Rightarrow> string list \<Rightarrow> string \<Rightarrow> string" where
  "dataset_signature md5_fn urls texts model_name =
     hexdigest (md5_fn (signature_stream model_name urls texts))"

subsection \<open>The persisted embedding store and the other files\<close>

text \<open>
  What \<^verbatim>\<open>pickle.load\<close> finds in \<^verbatim>\<open>embeddings.pkl\<close>: nothing, bytes that do not load as a
  dictionary (the \<^verbatim>\<open>except Exception\<close> branch), or a dictionary whose three keys may each
  be absent or hold a value of another type (\<open>None\<close>). Embeddings are a list of row vectors;
  floating-point numbers are idealised as reals.
\<close>

record payload =
  p_embeddings :: "real list list option"
  p_signature :: "string option"
  p_model :: "string option"

datatype store_file = Absent | Corrupt | Stored payload

record recommendation =
  source_url :: string
  target_url :: string
  similarity_score :: real
  anchor_text :: cell

text \<open>
  The state a run reads and changes: the store file, the recommendation table (\<open>None\<close> until
  written), and counters of model invocations and of writes to either file.
\<close>

record world =
  embeddings_file :: store_file
  recommendations_csv :: "recommendation list option"
  model_invocations :: nat
  store_writes :: nat
  csv_writes :: nat

text \<open>
  The library functions the code calls and this repository does not define: the MD5 digest,
  \<^verbatim>\<open>SentenceTransformer(model_name).encode\<close> and \<^verbatim>\<open>np.argsort\<close>. A model that cannot be
  loaded and a file that cannot be written are outside the model: these calls return.
\<close>

record externals =
  md5 :: "string \<Rightarrow> 128 word"
  encode :: "string \<Rightarrow> string list \<Rightarrow> real list list"
  argsort :: "real list \<Rightarrow> nat list"

record config =
  TOP_K :: int
  MAX_ARTICLES :: "nat option"
  MODEL_NAME :: string

definition default_config :: config where
  "default_config = \<lparr>TOP_K = 8, MAX_ARTICLES = None, MODEL_NAME = ''all-MiniLM-L6-v2''\<rparr>"

subsection \<open>The embedding cache manager\<close>

text \<open>The \<^verbatim>\<open>try\<close> block of \<^verbatim>\<open>load_or_build_embeddings\<close>: the stored vectors on a hit.\<close>

definition load_cached :: "store_file \<Rightarrow> nat \<Rightarrow> string \<Rightarrow> string \<Rightarrow> real list list option" where
  "load_cached f n signature model_name =
     (case f of
        Absent \<Rightarrow> None
      | Corrupt \<Rightarrow> None
      | Stored p \<Rightarrow>
          (case p_embeddings p of
             None \<Rightarrow> None
           | Some emb \<Rightarrow>
               if length emb = n \<and> p_signature p = Some signature \<and> p_model p = Some model_name
               then Some emb else None))"

text \<open>The recompute path: invoke the model, then overwrite the store.\<close>

definition build_embeddings ::
  "externals \<Rightarrow> string list \<Rightarrow> string \<Rightarrow> string \<Rightarrow> world \<Rightarrow> real list list \<times> world" where
  "build_embeddings ext texts signature model_name w =
     (let emb = encode ext model_name texts
      in (emb,
          w\<lparr>embeddings_file :=
               Stored \<lparr>p_embeddings = Some emb, p_signature = Some signature,
                       p_model = Some model_name\<rparr>,
            model_invocations := Suc (model_invocations w),
            store_writes := Suc (store_writes w)\<rparr>))"

definition load_or_build_embeddings ::
  "externals \<Rightarrow> string list \<Rightarrow> string \<Rightarrow> string \<Rightarrow> world \<Rightarrow> real list list \<times> world" where
  "load_or_build_embeddings ext texts signature model_name w =
     (case load_cached (embeddings_file w) (length texts) signature model_name of
        Some emb \<Rightarrow> (emb, w)
      | None \<Rightarrow> build_embeddings ext texts signature model_name w)"

subsection \<open>The similarity engine\<close>

text \<open>
  \<^verbatim>\<open>sklearn.metrics.pairwise.cosine_similarity\<close> in exact arithmetic: each row is divided by its
  Euclidean norm (a zero row is left as it is), then all pairwise dot products are taken. Its
  input validation rejects an array with no rows or no columns.
\<close>

definition dot :: "real list \<Rightarrow> real list \<Rightarrow> real" where
  "dot v u = sum_list (map2 (*) v u)"

definition l2_normalize :: "real list \<Rightarrow> real list" where
  "l2_normalize v = (let nrm = sqrt (dot v v) in if nrm = 0 then v else map (\<lambda>x. x / nrm) v)"

definition cosine_similarity :: "real list list \<Rightarrow> error + real list list" where
  "cosine_similarity X =
     (if X = [] \<or> list_ex (\<lambda>v. v = []) X then Inl ArrayError
      else let Xn = map l2_normalize X in Inr (map (\<lambda>v. map (\<lambda>u. dot v u) Xn) Xn))"

text \<open>\<^verbatim>\<open>similarity_matrix.shape == (n, n)\<close>.\<close>

definition shape_is :: "nat \<Rightarrow> real list list \<Rightarrow> bool" where
  "shape_is n sim = (length sim = n \<and> list_all (\<lambda>r. length r = n) sim)"

text \<open>\<^verbatim>\<open>max(1, min(TOP_K, n - 1))\<close>.\<close>

definition effective_top_k :: "int \<Rightarrow> nat \<Rightarrow> nat" where
  "effective_top_k k n = nat (max 1 (min k (int n - 1)))"

text \<open>The slice \<^verbatim>\<open>xs[-k:]\<close>: the last \<open>k\<close> elements, all of them when \<open>k\<close> is 0 or too large.\<close>

definition last_k :: "nat \<Rightarrow> 'a list \<Rightarrow> 'a list" where
  "last_k k xs = (if k = 0 then xs else drop (length xs - k) xs)"

text \<open>\<^verbatim>\<open>np.argsort(sim_scores)[-top_k:][::-1]\<close>.\<close>

definition top_indices :: "(real list \<Rightarrow> nat list) \<Rightarrow> nat \<Rightarrow> real list \<Rightarrow> nat list" where
  "top_indices argsort_fn top_k sim_scores = rev (last_k top_k (argsort_fn sim_scores))"

text \<open>
  The inner loop over \<^verbatim>\<open>top_indices\<close>. The dictionary's values are evaluated in order:
  \<^verbatim>\<open>df.at[target_idx, "url"]\<close>, \<^verbatim>\<open>sim_scores[target_idx]\<close>, \<^verbatim>\<open>df.at[target_idx, "title"]\<close>.
\<close>

fun emit_rows ::
  "string list \<Rightarrow> cell list option \<Rightarrow> string \<Rightarrow> real list \<Rightarrow> nat list \<Rightarrow> error + recommendation list"
where
  "emit_rows urls titles src sim_scores [] = Inr []"
| "emit_rows urls titles src sim_scores (t # ts) =
     (if length urls \<le> t then Inl KeyError
      else if length sim_scores \<le> t then Inl IndexError
      else case titles of
             None \<Rightarrow> Inl KeyError
           | Some titles_col \<Rightarrow>
               (case emit_rows urls titles src sim_scores ts of
                  Inl e \<Rightarrow> Inl e
                | Inr rs \<Rightarrow>
                    Inr (\<lparr>source_url = src, target_url = urls ! t,
                          similarity_score = sim_scores ! t,
                          anchor_text = titles_col ! t\<rparr> # rs)))"

text \<open>One iteration of the outer loop: mask the source's own entry, pick, emit.\<close>

definition source_rows ::
  "(real list \<Rightarrow> nat list) \<Rightarrow> nat \<Rightarrow> string list \<Rightarrow> cell list option \<Rightarrow> real list list \<Rightarrow> nat
     \<Rightarrow> error + recommendation list" where
  "source_rows argsort_fn top_k urls titles sim idx =
     (if length sim \<le> idx then Inl IndexError
      else let row = sim ! idx
           in if length row \<le> idx then Inl IndexError
              else let sim_scores = row[idx := - 1]
                   in emit_rows urls titles (urls ! idx) sim_scores
                        (top_indices argsort_fn top_k sim_scores))"

fun build_recommendations ::
  "(real list \<Rightarrow> nat list) \<Rightarrow> nat \<Rightarrow> string list \<Rightarrow> cell list option \<Rightarrow> real list list \<Rightarrow> nat list
     \<Rightarrow> error + recommendation list" where
  "build_recommendations argsort_fn top_k urls titles sim [] = Inr []"
| "build_recommendations argsort_fn top_k urls titles sim (idx # idxs) =
     (case source_rows argsort_fn top_k urls titles sim idx of
        Inl e \<Rightarrow> Inl e
      | Inr rs \<Rightarrow>
          (case build_recommendations argsort_fn top_k urls titles sim idxs of
             Inl e \<Rightarrow> Inl e
           | Inr rest \<Rightarrow> Inr (rs @ rest)))"

subsection \<open>The pipeline\<close>

definition title_column :: "dataframe \<Rightarrow> cell list option" where
  "title_column df =
     map_option (\<lambda>i. map (cell_at i) (rows df)) (col_index (columns df) ''title'')"

definition to_csv :: "recommendation list \<Rightarrow> world \<Rightarrow> world" where
  "to_csv recs w = w\<lparr>recommendations_csv := Some recs, csv_writes := Suc (csv_writes w)\<rparr>"

text \<open>
  Lines 117 to 134 of \<^verbatim>\<open>main\<close>: the embeddings, their similarity matrix, and the last-resort
  rebuild (remove the store, build again) when the matrix is not \<open>n \<times> n\<close>.
\<close>

definition similarity_stage ::
  "externals \<Rightarrow> string list \<Rightarrow> string \<Rightarrow> string \<Rightarrow> nat \<Rightarrow> world
     \<Rightarrow> (error + real list list) \<times> world" where
  "similarity_stage ext texts sig model_name n w =
     (case load_or_build_embeddings ext texts sig model_name w of
        (embeddings, w1) \<Rightarrow>
          (case cosine_similarity embeddings of
             Inl e \<Rightarrow> (Inl e, w1)
           | Inr sim \<Rightarrow>
               if shape_is n sim then (Inr sim, w1)
               else (case load_or_build_embeddings ext texts sig model_name
                            (w1\<lparr>embeddings_file := Absent\<rparr>) of
                       (embeddings2, w2) \<Rightarrow> (cosine_similarity embeddings2, w2))))"

text \<open>
  \<^verbatim>\<open>main\<close>, from the data frame that \<^verbatim>\<open>pd.read_csv\<close> returned. The result is the exception
  the run ended with, if any, and the state it left.
\<close>

definition main :: "externals \<Rightarrow> config \<Rightarrow> dataframe \<Rightarrow> world \<Rightarrow> error option \<times> world" where
  "main ext cfg raw w =
     (case ensure_unique_and_ordered raw of
        Inl e \<Rightarrow> (Some e, w)
      | Inr df0 \<Rightarrow>
          let df = limit_articles (MAX_ARTICLES cfg) df0;
              combined = map (combine_text (columns df)) (rows df);
              n = length (rows df)
          in if n < 2 then (None, to_csv [] w)
             else
               let sig = dataset_signature (md5 ext) (url_column df) combined (MODEL_NAME cfg)
               in (case similarity_stage ext combined sig (MODEL_NAME cfg) n w of
                     (Inl e, w2) \<Rightarrow> (Some e, w2)
                   | (Inr sim, w2) \<Rightarrow>
                       (case build_recommendations (argsort ext) (effective_top_k (TOP_K cfg) n)
                               (url_column df) (title_column df) sim [0..<n] of
                          Inl e \<Rightarrow> (Some e, w2)
                        | Inr recs \<Rightarrow> (None, to_csv recs w2))))"

subsection \<open>Sorting routines for \<^verbatim>\<open>np.argsort\<close>\<close>

text \<open>
  What every sorting routine guarantees: the result is a permutation of the indices along
  which the scores ascend. The order of equal scores is left open, as
  \<^verbatim>\<open>np.argsort\<close>'s default \<^verbatim>\<open>kind="quicksort"\<close> leaves it.
\<close>

definition is_argsort :: "real list \<Rightarrow> nat list \<Rightarrow> bool" where
  "is_argsort xs p = (sort p = [0..<length xs] \<and> sorted (map (\<lambda>i. xs ! i) p))"

definition valid_argsort :: "(real list \<Rightarrow> nat list) \<Rightarrow> bool" where
  "valid_argsort f = (\<forall>xs. is_argsort xs (f xs))"

text \<open>A stable routine (insertion sort, which NumPy uses on short arrays).\<close>

definition argsort_stable :: "real list \<Rightarrow> nat list" where
  "argsort_stable xs = sort_key (\<lambda>i. xs ! i) [0..<length xs]"

text \<open>An encoder returns one vector, of at least one component, per text.\<close>

definition valid_matrix :: "nat \<Rightarrow> real list list \<Rightarrow> bool" where
  "valid_matrix n E = (length E = n \<and> list_all (\<lambda>v. v \<noteq> []) E)"

definition valid_encoder :: "(string \<Rightarrow> string list \<Rightarrow> real list list) \<Rightarrow> bool" where
  "valid_encoder enc = (\<forall>m ts. valid_matrix (length ts) (enc m ts))"

subsection \<open>Notions used in the statements\<close>

text \<open>No URL of the table occurs in two different records (rows without a URL apart).\<close>

definition one_record_per_url :: "dataframe \<Rightarrow> bool" where
  "one_record_per_url df =
     list_all (\<lambda>r1. list_all (\<lambda>r2.
        row_get (columns df) r1 ''url'' = row_get (columns df) r2 ''url''
          \<longrightarrow> row_get (columns df) r1 ''url'' = Some NaN \<or> r1 = r2) (rows df)) (rows df)"



text \<open>A stored array, when there is one, has no vector without components.\<close>

definition store_well_formed :: "world \<Rightarrow> bool" where
  "store_well_formed w =
     (case embeddings_file w of
        Stored p \<Rightarrow> (case p_embeddings p of Some e \<Rightarrow> list_all (\<lambda>v. v \<noteq> []) e | None \<Rightarrow> True)
      | _ \<Rightarrow> True)"

text \<open>The dictionary appended for target \<open>t\<close>.\<close>

definition make_row :: "string list \<Rightarrow> cell list \<Rightarrow> string \<Rightarrow> real list \<Rightarrow> nat \<Rightarrow> recommendation" where
  "make_row urls titles_col src sim_scores t =
     \<lparr>source_url = src, target_url = urls ! t, similarity_score = sim_scores ! t,
      anchor_text = titles_col ! t\<rparr>"

text \<open>The rows emitted for the source at index \<open>idx\<close>.\<close>

definition rows_of_source ::
  "(real list \<Rightarrow> nat list) \<Rightarrow> nat \<Rightarrow> string list \<Rightarrow> cell list \<Rightarrow> real list list \<Rightarrow> nat
     \<Rightarrow> recommendation list" where
  "rows_of_source f k urls titles_col sim idx =
     map (make_row urls titles_col (urls ! idx) ((sim ! idx)[idx := - 1]))
       (top_indices f k ((sim ! idx)[idx := - 1]))"

subsection \<open>Concrete inputs\<close>

text \<open>
  Two stand-ins for the embedding model: one maps every text to the same unit vector, the
  other alternates between a unit vector and its opposite.
\<close>

definition unit_encoder :: "string \<Rightarrow> string list \<Rightarrow> real list list" where
  "unit_encoder m ts = map (\<lambda>t. [1]) ts"

definition alternating_encoder :: "string \<Rightarrow> string list \<Rightarrow> real list list" where
  "alternating_encoder m ts = map (\<lambda>i. [(- 1) ^ i]) [0..<length ts]"

text \<open>Library functions for the examples: a constant digest, a stable sort.\<close>

definition example_externals :: externals where
  "example_externals = \<lparr>md5 = (\<lambda>bs. 0), encode = unit_encoder, argsort = argsort_stable\<rparr>"

definition opposing_externals :: externals where
  "opposing_externals = \<lparr>md5 = (\<lambda>bs. 0), encode = alternating_encoder, argsort = argsort_stable\<rparr>"

text \<open>No store, no table written yet.\<close>

definition empty_world :: world where
  "empty_world = \<lparr>embeddings_file = Absent, recommendations_csv = None, model_invocations = 0,
     store_writes = 0, csv_writes = 0\<rparr>"

text \<open>A store that does not load, and one holding two vectors under signature \<^verbatim>\<open>00\<close>.\<close>

definition corrupt_world :: world where
  "corrupt_world = \<lparr>embeddings_file = Corrupt, recommendations_csv = None, model_invocations = 0,
     store_writes = 0, csv_writes = 0\<rparr>"

definition cached_world :: world where
  "cached_world = \<lparr>embeddings_file =
       Stored \<lparr>p_embeddings = Some [[0, 1], [1, 0]], p_signature = Some ''00'', p_model = Some ''m''\<rparr>,
     recommendations_csv = None, model_invocations = 0, store_writes = 0, csv_writes = 0\<rparr>"

text \<open>Raw tables.\<close>

definition one_article :: dataframe where
  "one_article = \<lparr>columns = [''url'', ''title''], rows = [[Str ''a'', Str ''A'']]\<rparr>"

definition two_articles :: dataframe where
  "two_articles = \<lparr>columns = [''url'', ''title''],
     rows = [[Str ''b'', Str ''B''], [NaN, Str ''lost''], [Str ''a'', Str ''A'']]\<rparr>"

definition two_articles_reordered :: dataframe where
  "two_articles_reordered = \<lparr>columns = [''url'', ''title''],
     rows = [[Str ''a'', Str ''A''], [Str ''b'', Str ''B''], [NaN, Str ''lost'']]\<rparr>"

definition three_articles :: dataframe where
  "three_articles = \<lparr>columns = [''url'', ''title''],
     rows = [[Str ''a'', Str ''A''], [Str ''b'', Str ''B''], [Str ''c'', Str ''C'']]\<rparr>"

definition conflicting_rows :: dataframe where
  "conflicting_rows = \<lparr>columns = [''url'', ''title''],
     rows = [[Str ''u'', Str ''first''], [Str ''u'', Str ''second''], [Str ''a'', Str ''A'']]\<rparr>"

definition conflicting_rows_reordered :: dataframe where
  "conflicting_rows_reordered = \<lparr>columns = [''url'', ''title''],
     rows = [[Str ''u'', Str ''second''], [Str ''u'', Str ''first''], [Str ''a'', Str ''A'']]\<rparr>"

definition no_url_table :: dataframe where
  "no_url_table = \<lparr>columns = [''title''], rows = [[Str ''A'']]\<rparr>"

text \<open>A similarity matrix without ties.\<close>

definition example_similarity :: "real list list" where
  "example_similarity = [[1, 1/2, 4/5], [1/2, 1, 1/5], [4/5, 1/5, 1]]"

section \<open>Unfolding the definitions on concrete inputs\<close>

lemmas eval_normalizer =
  ensure_unique_and_ordered_def sort_values_def drop_duplicates_def dropna_def cell_at_def
  url_column_def row_get_def

lemmas eval_pipeline =
  main_def eval_normalizer limit_articles_def default_config_def similarity_stage_def
  load_or_build_embeddings_def load_cached_def build_embeddings_def cosine_similarity_def
  l2_normalize_def dot_def shape_is_def effective_top_k_def title_column_def source_rows_def
  top_indices_def last_k_def argsort_stable_def to_csv_def Let_def

section \<open>The normalizer\<close>

lemma col_index_None: "col_index cs n = None \<longleftrightarrow> n \<notin> set cs"
  by (induction cs) auto

lemma col_index_Some: "n \<in> set cs \<Longrightarrow> \<exists>i. col_index cs n = Some i"
  using col_index_None [of cs n] by (cases "col_index cs n") auto

lemma drop_dups_seen_subset: "set (drop_dups_seen key seen xs) \<subseteq> set xs"
  by (induction xs arbitrary: seen) auto

lemma drop_dups_seen_keys: "key ` set (drop_dups_seen key seen xs) = key ` set xs - set seen"
  by (induction xs arbitrary: seen) auto

lemma drop_dups_seen_distinct: "distinct (map key (drop_dups_seen key seen xs))"
proof (induction xs arbitrary: seen)
  case Nil
  show ?case by simp
next
  case (Cons x xs)
  have "key x \<notin> key ` set (drop_dups_seen key (key x # seen) xs)"
    by (simp add: drop_dups_seen_keys)
  with Cons show ?case by simp
qed



lemma distinct_map_sort_key: "distinct (map g (sort_key f xs)) = distinct (map g xs)"
  by (simp add: distinct_map)

lemma set_nrows_subset: "set (sort_values i (drop_duplicates i (dropna i rs))) \<subseteq> {r \<in> set rs. cell_at i r \<noteq> NaN}"
  using drop_dups_seen_subset [of "cell_at i" "[]" "dropna i rs"]
  by (auto simp: sort_values_def drop_duplicates_def dropna_def)

lemma normalized_not_missing:
  "r \<in> set (sort_values i (drop_duplicates i (dropna i rs))) \<Longrightarrow> \<exists>s. cell_at i r = Str s"
  using set_nrows_subset [of i rs] by (cases "cell_at i r") auto

lemma cell_str_inj: "cell_str a = cell_str b \<Longrightarrow> a \<noteq> NaN \<Longrightarrow> b \<noteq> NaN \<Longrightarrow> a = b"
  by (cases a; cases b) auto

lemma normalized_distinct_cells:
  "distinct (map (cell_at i) (sort_values i (drop_duplicates i (dropna i rs))))"
  by (simp add: sort_values_def distinct_map_sort_key drop_duplicates_def drop_dups_seen_distinct)

lemma normalized_distinct_urls:
  "distinct (map (\<lambda>r. cell_str (cell_at i r)) (sort_values i (drop_duplicates i (dropna i rs))))"
proof -
  let ?N = "sort_values i (drop_duplicates i (dropna i rs))"
  have "inj_on cell_str (set (map (cell_at i) ?N))"
  proof (rule inj_onI)
    fix a b assume a: "a \<in> set (map (cell_at i) ?N)" and b: "b \<in> set (map (cell_at i) ?N)"
      and eq: "cell_str a = cell_str b"
    from a obtain ra where ra: "ra \<in> set ?N" "a = cell_at i ra" by auto
    from b obtain rb where rb: "rb \<in> set ?N" "b = cell_at i rb" by auto
    from normalized_not_missing [OF ra(1)] ra(2) have "a \<noteq> NaN" by auto
    moreover from normalized_not_missing [OF rb(1)] rb(2) have "b \<noteq> NaN" by auto
    ultimately show "a = b" using eq by (simp add: cell_str_inj)
  qed
  with normalized_distinct_cells [of i rs]
  have "distinct (map cell_str (map (cell_at i) ?N))" by (simp only: distinct_map)
  then show ?thesis by (simp add: comp_def)
qed

lemma normalized_sorted_urls:
  "sorted (map (\<lambda>r. cell_str (cell_at i r)) (sort_values i (drop_duplicates i (dropna i rs))))"
  by (simp add: sort_values_def)




lemma drop_dups_seen_inj_set:
  "inj_on key (set xs) \<Longrightarrow> set (drop_dups_seen key seen xs) = {x \<in> set xs. key x \<notin> set seen}"
proof (induction xs arbitrary: seen)
  case Nil
  show ?case by simp
next
  case (Cons x xs)
  from Cons.prems have inj: "inj_on key (set xs)" by (simp add: inj_on_def)
  have same: "\<And>y. y \<in> set xs \<Longrightarrow> key y = key x \<Longrightarrow> y = x"
    using Cons.prems by (auto simp: inj_on_def)
  show ?case using Cons.IH [OF inj] same by auto
qed

lemma sorted_distinct_key_unique:
  assumes "sorted (map f xs)" "distinct (map f xs)" "sorted (map f ys)" "distinct (map f ys)"
    and "set xs = set ys"
  shows "xs = ys"
proof -
  have "set (map f xs) = set (map f ys)" using assms(5) by simp
  then have eq: "map f xs = map f ys"
    using assms(1-4) by (intro sorted_distinct_set_unique)
  have "inj_on f (set xs \<union> set ys)" using assms(2,5) by (simp add: distinct_map)
  with eq show ?thesis by (simp add: inj_on_map_eq_map)
qed




lemma main_cong:
  "ensure_unique_and_ordered A = ensure_unique_and_ordered B \<Longrightarrow> main ext cfg A w = main ext cfg B w"
  by (simp only: main_def)

lemma normalized_rows_set_eq:
  assumes sets: "set rsA = set rsB"
    and unamb: "\<forall>r1 \<in> set rsA. \<forall>r2 \<in> set rsA. cell_at i r1 = cell_at i r2 \<longrightarrow> cell_at i r1 = NaN \<or> r1 = r2"
  shows "sort_values i (drop_duplicates i (dropna i rsA)) = sort_values i (drop_duplicates i (dropna i rsB))"
proof -
  let ?NA = "sort_values i (drop_duplicates i (dropna i rsA))"
  let ?NB = "sort_values i (drop_duplicates i (dropna i rsB))"
  have dn: "set (dropna i rsA) = set (dropna i rsB)" using sets by (simp add: dropna_def)
  have injA: "inj_on (cell_at i) (set (dropna i rsA))"
    using unamb by (auto simp: inj_on_def dropna_def)
  then have injB: "inj_on (cell_at i) (set (dropna i rsB))" using dn by simp
  have "set ?NA = set (dropna i rsA)"
    by (simp add: sort_values_def drop_duplicates_def drop_dups_seen_inj_set [OF injA])
  moreover have "set ?NB = set (dropna i rsB)"
    by (simp add: sort_values_def drop_duplicates_def drop_dups_seen_inj_set [OF injB])
  ultimately have "set ?NA = set ?NB" using dn by simp
  then show ?thesis
    by (intro sorted_distinct_key_unique [where f = "\<lambda>r. cell_str (cell_at i r)"]
          normalized_sorted_urls normalized_distinct_urls)
qed

lemma one_record_per_url_iff:
  "one_record_per_url df \<longleftrightarrow>
     (\<forall>r1 \<in> set (rows df). \<forall>r2 \<in> set (rows df).
        row_get (columns df) r1 ''url'' = row_get (columns df) r2 ''url''
          \<longrightarrow> row_get (columns df) r1 ''url'' = Some NaN \<or> r1 = r2)"
  by (simp add: one_record_per_url_def list_all_iff)

text \<open>
  Claim C7 (order invariance), as amended. Two raw tables with the same columns and the same
  set of records, in which no URL occurs in two different records, normalize to the same
  corpus, whatever the order of their rows; the whole run, which reads the raw table only
  through its normalized corpus, therefore computes the same signature, leaves the same
  store and writes the same recommendation rows. Without the condition on URLs the claim
  fails: which of two conflicting records survives depends on the row order.
\<close>

theorem order_invariance:
  assumes "columns A = columns B" and "set (rows A) = set (rows B)" and "one_record_per_url A"
  shows "ensure_unique_and_ordered A = ensure_unique_and_ordered B
         \<and> (\<forall>dA dB. ensure_unique_and_ordered A = Inr dA \<and> ensure_unique_and_ordered B = Inr dB \<longrightarrow>
               dataset_signature (md5 ext) (url_column (limit_articles (MAX_ARTICLES cfg) dA))
                   (map (combine_text (columns dA)) (rows (limit_articles (MAX_ARTICLES cfg) dA)))
                   (MODEL_NAME cfg)
                 = dataset_signature (md5 ext) (url_column (limit_articles (MAX_ARTICLES cfg) dB))
                     (map (combine_text (columns dB)) (rows (limit_articles (MAX_ARTICLES cfg) dB)))
                     (MODEL_NAME cfg))
         \<and> main ext cfg A w = main ext cfg B w"
proof -
  have "ensure_unique_and_ordered A = ensure_unique_and_ordered B"
  proof (cases "col_index (columns A) ''url''")
    case None
    with assms(1) show ?thesis by (simp add: ensure_unique_and_ordered_def)
  next
    case (Some i)
    have "\<forall>r1 \<in> set (rows A). \<forall>r2 \<in> set (rows A).
            cell_at i r1 = cell_at i r2 \<longrightarrow> cell_at i r1 = NaN \<or> r1 = r2"
      using assms(3) Some by (simp add: one_record_per_url_iff row_get_def)
    from normalized_rows_set_eq [OF assms(2) this] Some assms(1)
    show ?thesis by (simp add: ensure_unique_and_ordered_def)
  qed
  then show ?thesis using main_cong [of A B ext cfg w] by auto
qed

theorem order_invariance_witness:
  "columns two_articles = columns two_articles_reordered
   \<and> set (rows two_articles) = set (rows two_articles_reordered)
   \<and> one_record_per_url two_articles
   \<and> ensure_unique_and_ordered two_articles
       = Inr \<lparr>columns = [''url'', ''title''], rows = [[Str ''a'', Str ''A''], [Str ''b'', Str ''B'']]\<rparr>
   \<and> ensure_unique_and_ordered two_articles_reordered
       = Inr \<lparr>columns = [''url'', ''title''], rows = [[Str ''a'', Str ''A''], [Str ''b'', Str ''B'']]\<rparr>
   \<and> main example_externals default_config two_articles empty_world
       = main example_externals default_config two_articles_reordered empty_world"
proof -
  have n: "ensure_unique_and_ordered two_articles
       = Inr \<lparr>columns = [''url'', ''title''], rows = [[Str ''a'', Str ''A''], [Str ''b'', Str ''B'']]\<rparr>"
    by (simp add: eval_normalizer two_articles_def)
  have c: "columns two_articles = columns two_articles_reordered"
    by (simp add: two_articles_def two_articles_reordered_def)
  have s: "set (rows two_articles) = set (rows two_articles_reordered)"
    by (auto simp: two_articles_def two_articles_reordered_def)
  have u: "one_record_per_url two_articles"
    by (simp add: one_record_per_url_def two_articles_def row_get_def cell_at_def)
  show ?thesis
    using c s u n order_invariance [OF c s u, of example_externals default_config empty_world]
    by simp
qed

theorem order_invariance_counterexample:
  "columns conflicting_rows = columns conflicting_rows_reordered
   \<and> set (rows conflicting_rows) = set (rows conflicting_rows_reordered)
   \<and> recommendations_csv (snd (main example_externals default_config conflicting_rows empty_world))
       = Some [\<lparr>source_url = ''a'', target_url = ''u'', similarity_score = 1, anchor_text = Str ''first''\<rparr>,
               \<lparr>source_url = ''u'', target_url = ''a'', similarity_score = 1, anchor_text = Str ''A''\<rparr>]
   \<and> recommendations_csv
         (snd (main example_externals default_config conflicting_rows_reordered empty_world))
       = Some [\<lparr>source_url = ''a'', target_url = ''u'', similarity_score = 1, anchor_text = Str ''second''\<rparr>,
               \<lparr>source_url = ''u'', target_url = ''a'', similarity_score = 1, anchor_text = Str ''A''\<rparr>]"
proof -
  have "set (rows conflicting_rows) = set (rows conflicting_rows_reordered)"
    by (auto simp: conflicting_rows_def conflicting_rows_reordered_def)
  moreover have "columns conflicting_rows = columns conflicting_rows_reordered"
    by (simp add: conflicting_rows_def conflicting_rows_reordered_def)
  moreover have "recommendations_csv (snd (main example_externals default_config conflicting_rows empty_world))
       = Some [\<lparr>source_url = ''a'', target_url = ''u'', similarity_score = 1, anchor_text = Str ''first''\<rparr>,
               \<lparr>source_url = ''u'', target_url = ''a'', similarity_score = 1, anchor_text = Str ''A''\<rparr>]"
    by (simp add: eval_pipeline conflicting_rows_def example_externals_def unit_encoder_def
          empty_world_def upt_rec [of 0] upt_rec [of 1] upt_rec [of 2])
  moreover have "recommendations_csv
         (snd (main example_externals default_config conflicting_rows_reordered empty_world))
       = Some [\<lparr>source_url = ''a'', target_url = ''u'', similarity_score = 1, anchor_text = Str ''second''\<rparr>,
               \<lparr>source_url = ''u'', target_url = ''a'', similarity_score = 1, anchor_text = Str ''A''\<rparr>]"
    by (simp add: eval_pipeline conflicting_rows_reordered_def example_externals_def unit_encoder_def
          empty_world_def upt_rec [of 0] upt_rec [of 1] upt_rec [of 2])
  ultimately show ?thesis by blast
qed




text \<open>
  Claim C9 (schema error). The normalizer fails, with \<open>SchemaError\<close>, exactly when the table
  has no \<^verbatim>\<open>url\<close> column; missing values in the column do not make it fail. When it fails,
  \<^verbatim>\<open>main\<close> ends with that error and leaves the state as it found it: no recommendation
  table written, the embedding store untouched, the model not invoked.
\<close>

theorem schema_error_iff:
  "(ensure_unique_and_ordered df = Inl SchemaError \<longleftrightarrow> ''url'' \<notin> set (columns df))
   \<and> (\<forall>e. ensure_unique_and_ordered df = Inl e \<longrightarrow>
          e = SchemaError \<and> main ext cfg df w = (Some SchemaError, w))"
proof -
  have "ensure_unique_and_ordered df = Inl SchemaError \<longleftrightarrow> ''url'' \<notin> set (columns df)"
    using col_index_None [of "columns df" "''url''"]
    by (auto simp: ensure_unique_and_ordered_def split: option.splits)
  moreover have "e = SchemaError \<and> main ext cfg df w = (Some SchemaError, w)"
    if fails: "ensure_unique_and_ordered df = Inl e" for e
  proof -
    from fails have "e = SchemaError"
      by (auto simp: ensure_unique_and_ordered_def split: option.splits)
    moreover from fails have "main ext cfg df w = (Some e, w)"
      by (simp only: main_def sum.case)
    ultimately show ?thesis by simp
  qed
  ultimately show ?thesis by blast
qed

theorem schema_error_iff_witness:
  "ensure_unique_and_ordered no_url_table = Inl SchemaError
   \<and> ''url'' \<notin> set (columns no_url_table)
   \<and> main example_externals default_config no_url_table empty_world = (Some SchemaError, empty_world)"
proof -
  have h: "''url'' \<notin> set (columns no_url_table)" by (simp add: no_url_table_def)
  show ?thesis
    using h schema_error_iff [of no_url_table example_externals default_config empty_world]
    by simp
qed



section \<open>The embedding cache manager\<close>

text \<open>
  Claim C1 (cache hit). When the store file exists, loads, and holds embeddings with as many
  rows as there are texts, the given signature and the given model name, the call returns the
  stored vectors and leaves the state as it is: the model is not invoked and the store is
  not written.
\<close>

theorem cache_hit:
  assumes "embeddings_file w = Stored p" and "p_embeddings p = Some emb"
    and "length emb = length texts"
    and "p_signature p = Some signature" and "p_model p = Some model_name"
  shows "load_or_build_embeddings ext texts signature model_name w = (emb, w)"
  using assms by (simp add: load_or_build_embeddings_def load_cached_def)

theorem cache_hit_witness:
  "load_or_build_embeddings example_externals [''x'', ''y''] ''00'' ''m'' cached_world
     = ([[0, 1], [1, 0]], cached_world)"
  using cache_hit [of cached_world
      "\<lparr>p_embeddings = Some [[0, 1], [1, 0]], p_signature = Some ''00'', p_model = Some ''m''\<rparr>"
      "[[0, 1], [1, 0]]" "[''x'', ''y'']" "''00''" "''m''" example_externals]
  by (simp add: cached_world_def)

text \<open>
  Claim C2 (invalidation and recovery). When the store is absent, does not load, or differs
  in signature, model name or row count, the call invokes the model once on the texts in
  their order, overwrites the store with the new vectors, the signature and the model name,
  and returns the new vectors; the function has no error result, so nothing of the failed
  read reaches the caller.
\<close>

theorem cache_rebuild:
  assumes "embeddings_file w = Absent \<or> embeddings_file w = Corrupt
     \<or> (\<exists>p. embeddings_file w = Stored p
            \<and> (p_signature p \<noteq> Some signature \<or> p_model p \<noteq> Some model_name
                \<or> (\<forall>emb. p_embeddings p = Some emb \<longrightarrow> length emb \<noteq> length texts)))"
  shows "load_or_build_embeddings ext texts signature model_name w =
     (encode ext model_name texts,
      w\<lparr>embeddings_file :=
           Stored \<lparr>p_embeddings = Some (encode ext model_name texts),
                   p_signature = Some signature, p_model = Some model_name\<rparr>,
        model_invocations := Suc (model_invocations w),
        store_writes := Suc (store_writes w)\<rparr>)"
proof -
  have "load_cached (embeddings_file w) (length texts) signature model_name = None"
    using assms by (auto simp: load_cached_def split: store_file.splits option.splits)
  then show ?thesis
    by (simp add: load_or_build_embeddings_def build_embeddings_def Let_def)
qed

theorem cache_rebuild_witness:
  "load_or_build_embeddings example_externals [''x'', ''y''] ''00'' ''m'' corrupt_world =
     ([[1], [1]],
      \<lparr>embeddings_file =
           Stored \<lparr>p_embeddings = Some [[1], [1]], p_signature = Some ''00'', p_model = Some ''m''\<rparr>,
        recommendations_csv = None, model_invocations = 1, store_writes = 1, csv_writes = 0\<rparr>)
   \<and> load_or_build_embeddings example_externals [''x'', ''y'', ''z''] ''00'' ''m'' cached_world =
     ([[1], [1], [1]],
      \<lparr>embeddings_file =
           Stored \<lparr>p_embeddings = Some [[1], [1], [1]], p_signature = Some ''00'', p_model = Some ''m''\<rparr>,
        recommendations_csv = None, model_invocations = 1, store_writes = 1, csv_writes = 0\<rparr>)"
  using cache_rebuild [of corrupt_world "''00''" "''m''" "[''x'', ''y'']" example_externals]
    cache_rebuild [of cached_world "''00''" "''m''" "[''x'', ''y'', ''z'']" example_externals]
  by (simp add: corrupt_world_def cached_world_def example_externals_def unit_encoder_def)

text \<open>
  The run on a store that does not load: the vectors are rebuilt and the table is written.
\<close>

lemma corrupt_store_recovers:
  "main example_externals default_config two_articles corrupt_world
     = (None,
        \<lparr>embeddings_file =
           Stored \<lparr>p_embeddings = Some [[1], [1]],
                   p_signature = Some (hexdigest 0), p_model = Some ''all-MiniLM-L6-v2''\<rparr>,
         recommendations_csv =
           Some [\<lparr>source_url = ''a'', target_url = ''b'', similarity_score = 1, anchor_text = Str ''B''\<rparr>,
                 \<lparr>source_url = ''b'', target_url = ''a'', similarity_score = 1, anchor_text = Str ''A''\<rparr>],
         model_invocations = 1, store_writes = 1, csv_writes = 1\<rparr>)"
  by (simp add: eval_pipeline two_articles_def example_externals_def unit_encoder_def
        corrupt_world_def dataset_signature_def upt_rec [of 0] upt_rec [of 1] upt_rec [of 2])

section \<open>The signature\<close>














section \<open>The similarity engine\<close>

subsection \<open>Sorting routines\<close>

lemma is_argsort_distinct: "is_argsort xs p \<Longrightarrow> distinct p"
  by (metis is_argsort_def distinct_sort distinct_upt)

lemma is_argsort_set: "is_argsort xs p \<Longrightarrow> set p = {..<length xs}"
  by (metis is_argsort_def set_sort atLeast_upt)

lemma is_argsort_length: "is_argsort xs p \<Longrightarrow> length p = length xs"
  by (metis is_argsort_def length_sort length_upt diff_zero)

lemma is_argsort_sorted: "is_argsort xs p \<Longrightarrow> sorted (map (\<lambda>i. xs ! i) p)"
  by (simp add: is_argsort_def)

lemma argsort_stable_valid: "valid_argsort argsort_stable"
proof -
  have "sort (sort_key (\<lambda>i. xs ! i) [0..<length xs]) = [0..<length xs]" for xs :: "real list"
    by (rule sorted_distinct_set_unique) simp_all
  then show ?thesis
    by (simp add: valid_argsort_def is_argsort_def argsort_stable_def)
qed

subsection \<open>Picking the top indices\<close>

lemma last_k_drop: "0 < k \<Longrightarrow> last_k k xs = drop (length xs - k) xs"
  by (simp add: last_k_def)

lemma valid_argsortD: "valid_argsort f \<Longrightarrow> is_argsort xs (f xs)"
  by (simp add: valid_argsort_def)

lemma top_indices_length:
  "valid_argsort f \<Longrightarrow> 0 < k \<Longrightarrow> length (top_indices f k xs) = min k (length xs)"
  by (auto simp: top_indices_def last_k_drop is_argsort_length dest: valid_argsortD [of f xs])

lemma top_indices_subset:
  assumes "valid_argsort f"
  shows "set (top_indices f k xs) \<subseteq> {..<length xs}"
proof -
  have "set (last_k k (f xs)) \<subseteq> set (f xs)"
    using set_drop_subset [of "length (f xs) - k" "f xs"] by (simp add: last_k_def)
  then show ?thesis
    using is_argsort_set [OF valid_argsortD [OF assms, of xs]] by (simp add: top_indices_def)
qed

lemma top_indices_distinct: "valid_argsort f \<Longrightarrow> distinct (top_indices f k xs)"
  using is_argsort_distinct [OF valid_argsortD, of f xs]
  by (simp add: top_indices_def last_k_def)

lemma top_indices_descending:
  assumes "valid_argsort f"
  shows "sorted (rev (map (\<lambda>i. xs ! i) (top_indices f k xs)))"
proof -
  have "sorted (map (\<lambda>i. xs ! i) (last_k k (f xs)))"
    using is_argsort_sorted [OF valid_argsortD [OF assms, of xs]]
    by (simp add: last_k_def drop_map [symmetric] sorted_wrt_drop)
  then show ?thesis by (simp add: top_indices_def rev_map)
qed

lemma top_indices_highest:
  assumes "valid_argsort f" and "j < length xs" and "j \<notin> set (top_indices f k xs)"
    and "t \<in> set (top_indices f k xs)"
  shows "xs ! j \<le> xs ! t"
proof -
  let ?p = "f xs" and ?m = "length (f xs) - k"
  note a = valid_argsortD [OF assms(1), of xs]
  from assms(2) is_argsort_set [OF a] have jp: "j \<in> set ?p" by simp
  from assms(3,4) jp have jt: "j \<notin> set (drop ?m ?p)" "t \<in> set (drop ?m ?p)"
    by (auto simp: top_indices_def last_k_def split: if_splits)
  from jp have "j \<in> set (take ?m ?p) \<union> set (drop ?m ?p)"
    by (simp only: set_append [symmetric] append_take_drop_id)
  with jt have j: "j \<in> set (take ?m ?p)" by blast
  have "sorted (map (\<lambda>i. xs ! i) (take ?m ?p @ drop ?m ?p))"
    using is_argsort_sorted [OF a] by simp
  then have "\<forall>a \<in> set (take ?m ?p). \<forall>b \<in> set (drop ?m ?p). xs ! a \<le> xs ! b"
    unfolding map_append sorted_append by auto
  with j jt(2) show ?thesis by blast
qed

subsection \<open>Emitting rows\<close>

lemma emit_rows_ok:
  "\<forall>t \<in> set ts. t < length urls \<and> t < length sim_scores \<Longrightarrow>
   emit_rows urls (Some titles_col) src sim_scores ts
     = Inr (map (make_row urls titles_col src sim_scores) ts)"
  by (induction ts) (simp_all add: make_row_def)

lemma source_rows_ok:
  assumes "valid_argsort f"
    and "idx < length sim" and "length (sim ! idx) = length urls" and "idx < length urls"
  shows "source_rows f k urls (Some titles_col) sim idx
     = Inr (map (make_row urls titles_col (urls ! idx) ((sim ! idx)[idx := - 1]))
              (top_indices f k ((sim ! idx)[idx := - 1])))"
proof -
  let ?s = "(sim ! idx)[idx := - 1]"
  have "\<forall>t \<in> set (top_indices f k ?s). t < length urls \<and> t < length ?s"
    using top_indices_subset [OF assms(1), of k ?s] assms(3) by auto
  from emit_rows_ok [OF this] assms(2-4) show ?thesis
    by (simp add: source_rows_def Let_def)
qed

lemma build_recommendations_ok:
  "\<forall>idx \<in> set idxs. source_rows f k urls titles sim idx = Inr (g idx) \<Longrightarrow>
   build_recommendations f k urls titles sim idxs = Inr (concat (map g idxs))"
  by (induction idxs) simp_all

lemma filter_concat_by_key:
  assumes "\<forall>j \<in> set js. \<forall>r \<in> set (g j). key r = h j"
    and "inj_on h (set js)" and "distinct js" and "i \<in> set js"
  shows "filter (\<lambda>r. key r = h i) (concat (map g js)) = g i"
  using assms
proof (induction js)
  case Nil
  then show ?case by simp
next
  case (Cons j js)
  have inj: "inj_on h (set js)" using Cons.prems(2) by (simp add: inj_on_def)
  have all: "\<forall>j \<in> set js. \<forall>r \<in> set (g j). key r = h j" using Cons.prems(1) by simp
  show ?case
  proof (cases "i = j")
    case True
    have "filter (\<lambda>r. key r = h i) (g j) = g j" using Cons.prems(1) True by simp
    moreover have "filter (\<lambda>r. key r = h i) (concat (map g js)) = []"
    proof -
      have "\<forall>j' \<in> set js. \<forall>r \<in> set (g j'). key r \<noteq> h i"
      proof (intro ballI)
        fix j' r assume j': "j' \<in> set js" and r: "r \<in> set (g j')"
        from j' Cons.prems(3) True have "j' \<noteq> i" by auto
        with Cons.prems(2) j' True have "h j' \<noteq> h i" by (auto simp: inj_on_def)
        with all j' r show "key r \<noteq> h i" by simp
      qed
      then show ?thesis by (auto simp: filter_empty_conv)
    qed
    ultimately show ?thesis using True by simp
  next
    case False
    with Cons.prems(4) have i: "i \<in> set js" by simp
    from False Cons.prems(2,4) have "h j \<noteq> h i" by (auto simp: inj_on_def)
    with Cons.prems(1) have "filter (\<lambda>r. key r = h i) (g j) = []"
      by (auto simp: filter_empty_conv)
    moreover from Cons.IH [OF all inj _ i] Cons.prems(3)
    have "filter (\<lambda>r. key r = h i) (concat (map g js)) = g i" by simp
    ultimately show ?thesis by simp
  qed
qed

subsection \<open>The similarity matrix\<close>

lemma cosine_similarity_shape:
  assumes "E \<noteq> []" and "list_all (\<lambda>v. v \<noteq> []) E"
  shows "\<exists>S. cosine_similarity E = Inr S \<and> shape_is (length E) S"
proof -
  from assms(2) have "\<not> list_ex (\<lambda>v. v = []) E" by (simp add: list_all_iff list_ex_iff)
  with assms(1) show ?thesis
    by (simp add: cosine_similarity_def shape_is_def Let_def list_all_iff)
qed

lemma load_or_build_valid:
  assumes "valid_encoder (encode ext)" and "store_well_formed w"
  shows "\<exists>emb w'. load_or_build_embeddings ext texts sig m w = (emb, w')
           \<and> valid_matrix (length texts) emb"
proof (cases "load_cached (embeddings_file w) (length texts) sig m")
  case None
  then show ?thesis
    using assms(1) by (simp add: load_or_build_embeddings_def build_embeddings_def Let_def valid_encoder_def)
next
  case (Some emb)
  then have "valid_matrix (length texts) emb"
    using assms(2)
    by (auto simp: load_cached_def store_well_formed_def valid_matrix_def
          split: store_file.splits option.splits if_splits)
  with Some show ?thesis by (simp add: load_or_build_embeddings_def)
qed

lemma similarity_stage_ok:
  assumes "valid_encoder (encode ext)" and "store_well_formed w" and "texts \<noteq> []"
  shows "\<exists>S w'. similarity_stage ext texts sig m (length texts) w = (Inr S, w')
           \<and> shape_is (length texts) S"
proof -
  from load_or_build_valid [OF assms(1,2), of texts sig m]
  obtain emb w' where l: "load_or_build_embeddings ext texts sig m w = (emb, w')"
    and v: "valid_matrix (length texts) emb" by blast
  from v assms(3) have "emb \<noteq> []" "list_all (\<lambda>v. v \<noteq> []) emb" "length emb = length texts"
    by (auto simp: valid_matrix_def)
  with cosine_similarity_shape [of emb]
  obtain S where "cosine_similarity emb = Inr S" "shape_is (length texts) S" by auto
  with l show ?thesis by (simp add: similarity_stage_def)
qed

subsection \<open>The corpus that reaches the engine\<close>

lemma ensure_columns: "ensure_unique_and_ordered raw = Inr df0 \<Longrightarrow> columns df0 = columns raw"
  by (auto simp: ensure_unique_and_ordered_def split: option.splits)

lemma ensure_url_index:
  "ensure_unique_and_ordered raw = Inr df0 \<Longrightarrow> \<exists>i. col_index (columns df0) ''url'' = Some i"
  by (auto simp: ensure_unique_and_ordered_def split: option.splits)

lemma ensure_distinct_urls:
  "ensure_unique_and_ordered raw = Inr df0 \<Longrightarrow> distinct (url_column df0)"
  using normalized_distinct_urls
  by (auto simp: ensure_unique_and_ordered_def url_column_def split: option.splits)

lemma limit_columns: "columns (limit_articles M df0) = columns df0"
  by (simp add: limit_articles_def split: option.splits)

lemma limit_url_column:
  "url_column (limit_articles M df0) = url_column df0
   \<or> (\<exists>k. url_column (limit_articles M df0) = take k (url_column df0))"
  by (auto simp: limit_articles_def url_column_def take_map split: option.splits)

lemma corpus_urls:
  assumes "ensure_unique_and_ordered raw = Inr df0"
  shows "distinct (url_column (limit_articles M df0))"
    and "length (url_column (limit_articles M df0)) = length (rows (limit_articles M df0))"
proof -
  from limit_url_column [of M df0] ensure_distinct_urls [OF assms]
  show "distinct (url_column (limit_articles M df0))" by auto
  from ensure_url_index [OF assms] obtain i where "col_index (columns df0) ''url'' = Some i" by blast
  then show "length (url_column (limit_articles M df0)) = length (rows (limit_articles M df0))"
    by (simp add: url_column_def limit_columns)
qed

lemma corpus_titles:
  assumes "ensure_unique_and_ordered raw = Inr df0" and "''title'' \<in> set (columns raw)"
  shows "\<exists>tc. title_column (limit_articles M df0) = Some tc"
proof -
  from assms have "''title'' \<in> set (columns (limit_articles M df0))"
    by (simp add: limit_columns ensure_columns)
  from col_index_Some [OF this] show ?thesis by (auto simp: title_column_def)
qed

subsection \<open>The number of neighbours\<close>

lemma effective_top_k_bounds: "2 \<le> n \<Longrightarrow> 0 < effective_top_k K n \<and> effective_top_k K n < n"
  by (auto simp: effective_top_k_def)

lemma effective_top_k_int: "int (effective_top_k K n) = max 1 (min K (int n - 1))"
  by (simp add: effective_top_k_def)

lemma effective_top_k_min: "2 \<le> n \<Longrightarrow> 1 \<le> K \<Longrightarrow> int (effective_top_k K n) = min K (int n - 1)"
  by (auto simp: effective_top_k_def)

subsection \<open>The rows of a run\<close>

lemma main_small:
  assumes "ensure_unique_and_ordered raw = Inr df0"
    and "length (rows (limit_articles (MAX_ARTICLES cfg) df0)) < 2"
  shows "main ext cfg raw w = (None, to_csv [] w)"
  using assms by (simp add: main_def Let_def)

lemma main_large:
  assumes "ensure_unique_and_ordered raw = Inr df0"
    and "df = limit_articles (MAX_ARTICLES cfg) df0"
    and "\<not> length (rows df) < 2"
    and "similarity_stage ext (map (combine_text (columns df)) (rows df))
           (dataset_signature (md5 ext) (url_column df) (map (combine_text (columns df)) (rows df))
              (MODEL_NAME cfg))
           (MODEL_NAME cfg) (length (rows df)) w = (Inr S, w2)"
    and "build_recommendations (argsort ext) (effective_top_k (TOP_K cfg) (length (rows df)))
           (url_column df) (title_column df) S [0..<length (rows df)] = Inr recs"
  shows "main ext cfg raw w = (None, to_csv recs w2)"
  using assms by (simp add: main_def Let_def)

lemma build_all_sources:
  assumes "valid_argsort f" and "shape_is (length urls) sim"
  shows "build_recommendations f k urls (Some titles_col) sim [0..<length urls]
     = Inr (concat (map (rows_of_source f k urls titles_col sim) [0..<length urls]))"
proof (rule build_recommendations_ok, intro ballI)
  fix idx assume "idx \<in> set [0..<length urls]"
  then have idx: "idx < length urls" by simp
  with assms(2) have "idx < length sim" "length (sim ! idx) = length urls"
    by (simp_all add: shape_is_def list_all_length)
  from source_rows_ok [OF assms(1) this idx]
  show "source_rows f k urls (Some titles_col) sim idx
     = Inr (rows_of_source f k urls titles_col sim idx)"
    by (simp add: rows_of_source_def)
qed

lemma rows_of_source_length:
  assumes "valid_argsort f" and "shape_is (length urls) sim" and "idx < length urls"
    and "0 < k" and "k < length urls"
  shows "length (rows_of_source f k urls titles_col sim idx) = k"
proof -
  from assms(2,3) have "length ((sim ! idx)[idx := - 1]) = length urls"
    by (simp add: shape_is_def list_all_length)
  with top_indices_length [OF assms(1,4), of "(sim ! idx)[idx := - 1]"] assms(5)
  show ?thesis by (simp add: rows_of_source_def)
qed

lemma rows_of_source_source:
  "r \<in> set (rows_of_source f k urls titles_col sim idx) \<Longrightarrow> source_url r = urls ! idx"
  by (auto simp: rows_of_source_def make_row_def)

lemma rows_per_source:
  assumes "valid_argsort f" and "shape_is (length urls) sim" and "distinct urls"
    and "0 < k" and "k < length urls" and "u \<in> set urls"
  shows "length (filter (\<lambda>r. source_url r = u)
           (concat (map (rows_of_source f k urls titles_col sim) [0..<length urls]))) = k"
proof -
  from assms(6) obtain i where i: "i < length urls" "u = urls ! i"
    by (auto simp: in_set_conv_nth)
  have inj: "inj_on (\<lambda>j. urls ! j) (set [0..<length urls])"
    using assms(3) by (auto simp: inj_on_def nth_eq_iff_index_eq)
  have "filter (\<lambda>r. source_url r = urls ! i)
          (concat (map (rows_of_source f k urls titles_col sim) [0..<length urls]))
        = rows_of_source f k urls titles_col sim i"
    using i(1) inj
    by (intro filter_concat_by_key [where h = "\<lambda>j. urls ! j"])
       (auto simp: rows_of_source_source)
  with rows_of_source_length [OF assms(1,2) i(1) assms(4,5)] i(2) show ?thesis by simp
qed

lemma rows_total:
  assumes "valid_argsort f" and "shape_is (length urls) sim" and "0 < k" and "k < length urls"
  shows "length (concat (map (rows_of_source f k urls titles_col sim) [0..<length urls]))
     = length urls * k"
proof -
  have "map (\<lambda>idx. length (rows_of_source f k urls titles_col sim idx)) [0..<length urls]
      = map (\<lambda>idx. k) [0..<length urls]"
    using rows_of_source_length [OF assms(1,2) _ assms(3,4)] by simp
  then show ?thesis by (simp add: length_concat comp_def sum_list_replicate map_replicate_const)
qed

text \<open>
  Claim C6 (row-count bound and degenerate case). Let \<open>n\<close> be the size of the corpus that
  reaches the engine. If \<open>n < 2\<close> the run ends without error, writes a table with no data
  rows and changes nothing else: the model is not invoked. If \<open>n \<ge> 2\<close>, the table has a title
  column, the sorting routine and the encoder behave as such routines do and a stored array
  has no empty vector, then the run ends without error and writes, for every source URL,
  exactly \<open>max(1, min(TOP_K, n - 1))\<close> rows, which is \<open>min(TOP_K, n - 1)\<close> when
  \<open>TOP_K \<ge> 1\<close>.
\<close>

theorem row_count_bound:
  assumes "ensure_unique_and_ordered raw = Inr df0"
    and "df = limit_articles (MAX_ARTICLES cfg) df0"
    and "n = length (rows df)"
  shows "(n < 2 \<longrightarrow>
            main ext cfg raw w
              = (None, w\<lparr>recommendations_csv := Some [], csv_writes := Suc (csv_writes w)\<rparr>))
     \<and> (2 \<le> n \<and> ''title'' \<in> set (columns raw) \<and> valid_argsort (argsort ext)
          \<and> valid_encoder (encode ext) \<and> store_well_formed w \<longrightarrow>
            (\<exists>recs w'. main ext cfg raw w = (None, w') \<and> recommendations_csv w' = Some recs
               \<and> (\<forall>u \<in> set (url_column df).
                     length (filter (\<lambda>r. source_url r = u) recs) = effective_top_k (TOP_K cfg) n)
               \<and> length recs = n * effective_top_k (TOP_K cfg) n))
     \<and> int (effective_top_k (TOP_K cfg) n) = max 1 (min (TOP_K cfg) (int n - 1))
     \<and> (2 \<le> n \<and> 1 \<le> TOP_K cfg \<longrightarrow> int (effective_top_k (TOP_K cfg) n) = min (TOP_K cfg) (int n - 1))"
proof -
  let ?k = "effective_top_k (TOP_K cfg) n"
  have small: "main ext cfg raw w
      = (None, w\<lparr>recommendations_csv := Some [], csv_writes := Suc (csv_writes w)\<rparr>)" if "n < 2"
    using main_small [OF assms(1), of cfg ext w] that assms(2,3) by (simp add: to_csv_def)
  have large: "\<exists>recs w'. main ext cfg raw w = (None, w') \<and> recommendations_csv w' = Some recs
               \<and> (\<forall>u \<in> set (url_column df). length (filter (\<lambda>r. source_url r = u) recs) = ?k)
               \<and> length recs = n * ?k"
    if n: "2 \<le> n" and t: "''title'' \<in> set (columns raw)" and a: "valid_argsort (argsort ext)"
      and e: "valid_encoder (encode ext)" and s: "store_well_formed w"
  proof -
    let ?texts = "map (combine_text (columns df)) (rows df)"
    let ?sig = "dataset_signature (md5 ext) (url_column df) ?texts (MODEL_NAME cfg)"
    let ?urls = "url_column df"
    have len: "length ?urls = n" and dist: "distinct ?urls"
      using corpus_urls [OF assms(1), of "MAX_ARTICLES cfg"] assms(2,3) by simp_all
    from corpus_titles [OF assms(1) t, of "MAX_ARTICLES cfg"] assms(2)
    obtain tc where tc: "title_column df = Some tc" by auto
    have "?texts \<noteq> []" using n assms(3) by auto
    from similarity_stage_ok [OF e s this, of ?sig "MODEL_NAME cfg"] assms(3)
    obtain S w2 where st: "similarity_stage ext ?texts ?sig (MODEL_NAME cfg) (length (rows df)) w
          = (Inr S, w2)" and sh: "shape_is (length ?urls) S"
      by (auto simp: len)
    let ?recs = "concat (map (rows_of_source (argsort ext) ?k ?urls tc S) [0..<length ?urls])"
    have b: "build_recommendations (argsort ext) (effective_top_k (TOP_K cfg) (length (rows df)))
           ?urls (title_column df) S [0..<length (rows df)] = Inr ?recs"
      using build_all_sources [OF a sh, of ?k tc] tc len assms(3) by simp
    have nl: "\<not> length (rows df) < 2" using n assms(3) by simp
    have m: "main ext cfg raw w = (None, to_csv ?recs w2)"
      by (rule main_large [OF assms(1,2) nl st b])
    from effective_top_k_bounds [OF n, of "TOP_K cfg"] len
    have k: "0 < ?k" "?k < length ?urls" by simp_all
    have "\<forall>u \<in> set ?urls. length (filter (\<lambda>r. source_url r = u) ?recs) = ?k"
      using rows_per_source [OF a sh dist k] by blast
    moreover have "length ?recs = n * ?k" using rows_total [OF a sh k, of tc] len by simp
    ultimately show ?thesis using m by (simp add: to_csv_def)
  qed
  from small large effective_top_k_int [of "TOP_K cfg" n] effective_top_k_min [of n "TOP_K cfg"]
  show ?thesis by blast
qed

lemma unit_encoder_valid: "valid_encoder unit_encoder"
  by (simp add: valid_encoder_def valid_matrix_def unit_encoder_def list_all_iff)

lemma alternating_encoder_valid: "valid_encoder alternating_encoder"
  by (simp add: valid_encoder_def valid_matrix_def alternating_encoder_def list_all_iff)

theorem row_count_bound_witness:
  "main example_externals default_config one_article empty_world
     = (None, empty_world\<lparr>recommendations_csv := Some [], csv_writes := Suc (csv_writes empty_world)\<rparr>)
   \<and> (\<exists>recs w'. main example_externals default_config three_articles empty_world = (None, w')
         \<and> recommendations_csv w' = Some recs
         \<and> (\<forall>u \<in> set [''a'', ''b'', ''c'']. length (filter (\<lambda>r. source_url r = u) recs) = 2)
         \<and> length recs = 6)"
proof -
  have e1: "ensure_unique_and_ordered one_article = Inr one_article"
    by (simp add: eval_normalizer one_article_def)
  have l1: "one_article = limit_articles (MAX_ARTICLES default_config) one_article"
    by (simp add: limit_articles_def default_config_def)
  have n1: "1 = length (rows one_article)" by (simp add: one_article_def)
  have e3: "ensure_unique_and_ordered three_articles = Inr three_articles"
    by (simp add: eval_normalizer three_articles_def)
  have l3: "three_articles = limit_articles (MAX_ARTICLES default_config) three_articles"
    by (simp add: limit_articles_def default_config_def)
  have n3: "3 = length (rows three_articles)" by (simp add: three_articles_def)
  have h: "''title'' \<in> set (columns three_articles)" "valid_argsort (argsort example_externals)"
    "valid_encoder (encode example_externals)" "store_well_formed empty_world"
    by (simp_all add: three_articles_def example_externals_def argsort_stable_valid
          unit_encoder_valid store_well_formed_def empty_world_def)
  have k: "effective_top_k (TOP_K default_config) 3 = 2"
    by (simp add: effective_top_k_def default_config_def)
  have u: "url_column three_articles = [''a'', ''b'', ''c'']"
    by (simp add: eval_normalizer three_articles_def)
  show ?thesis
    using row_count_bound [OF e1 l1 n1, of example_externals empty_world]
      row_count_bound [OF e3 l3 n3, of example_externals empty_world] h
    by (simp add: k u)
qed

text \<open>
  Claim C5 (ranking order and tie-break), as amended. For every source the emitted targets are
  the picked indices in their order; their scores descend; there are \<open>min(k, n)\<close> of them, all
  different; and no index left out has a higher score than an emitted one (the source's own
  entry counting as \<open>-1\<close>). Among exactly equal scores the order is the one the sorting
  routine returned, reversed: the code has no tie-break by URL.
\<close>

theorem ranking_order:
  assumes "valid_argsort f" and "idx < length sim" and "length (sim ! idx) = length urls"
    and "idx < length urls"
  shows "\<exists>rs. source_rows f k urls (Some titles_col) sim idx = Inr rs
     \<and> map target_url rs = map (\<lambda>t. urls ! t) (top_indices f k ((sim ! idx)[idx := - 1]))
     \<and> map similarity_score rs
         = map (\<lambda>t. (sim ! idx)[idx := - 1] ! t) (top_indices f k ((sim ! idx)[idx := - 1]))
     \<and> sorted (rev (map similarity_score rs))
     \<and> (0 < k \<longrightarrow> length rs = min k (length urls))
     \<and> distinct (top_indices f k ((sim ! idx)[idx := - 1]))
     \<and> (\<forall>j < length urls. j \<notin> set (top_indices f k ((sim ! idx)[idx := - 1])) \<longrightarrow>
           (\<forall>r \<in> set rs. (sim ! idx)[idx := - 1] ! j \<le> similarity_score r))"
proof -
  let ?s = "(sim ! idx)[idx := - 1]"
  let ?top = "top_indices f k ?s"
  let ?rs = "map (make_row urls titles_col (urls ! idx) ?s) ?top"
  have len: "length ?s = length urls" using assms(3) by simp
  have r: "source_rows f k urls (Some titles_col) sim idx = Inr ?rs"
    by (rule source_rows_ok [OF assms])
  have sc: "map similarity_score ?rs = map (\<lambda>t. ?s ! t) ?top"
    by (simp add: make_row_def comp_def)
  have tg: "map target_url ?rs = map (\<lambda>t. urls ! t) ?top"
    by (simp add: make_row_def comp_def)
  have d: "sorted (rev (map similarity_score ?rs))"
    unfolding sc by (rule top_indices_descending [OF assms(1)])
  have l: "0 < k \<longrightarrow> length ?rs = min k (length urls)"
    using top_indices_length [OF assms(1), of k ?s] len by simp
  have h: "\<forall>j < length urls. j \<notin> set ?top \<longrightarrow> (\<forall>r \<in> set ?rs. ?s ! j \<le> similarity_score r)"
  proof (intro allI impI ballI)
    fix j r assume j: "j < length urls" "j \<notin> set ?top" and "r \<in> set ?rs"
    then obtain t where t: "t \<in> set ?top" "similarity_score r = ?s ! t"
      by (auto simp: make_row_def)
    from top_indices_highest [OF assms(1) _ j(2) t(1)] j(1) len t(2)
    show "?s ! j \<le> similarity_score r" by simp
  qed
  from r tg sc d l top_indices_distinct [OF assms(1), of k ?s] h show ?thesis by blast
qed

theorem ranking_order_witness:
  "source_rows argsort_stable 2 [''a'', ''b'', ''c''] (Some [Str ''A'', Str ''B'', Str ''C''])
      example_similarity 0
     = Inr [\<lparr>source_url = ''a'', target_url = ''c'', similarity_score = 4/5, anchor_text = Str ''C''\<rparr>,
            \<lparr>source_url = ''a'', target_url = ''b'', similarity_score = 1/2, anchor_text = Str ''B''\<rparr>]
   \<and> top_indices argsort_stable 2 ((example_similarity ! 0)[0 := - 1]) = [2, 1]"
proof -
  have t: "top_indices argsort_stable 2 ((example_similarity ! 0)[0 := - 1]) = [2, 1]"
    by (simp add: example_similarity_def top_indices_def last_k_def argsort_stable_def
          upt_rec [of 0] upt_rec [of 1] upt_rec [of 2])
  have h: "0 < length example_similarity"
    "length (example_similarity ! 0) = length [''a'', ''b'', ''c'']"
    "0 < length [''a'', ''b'', ''c'']"
    by (simp_all add: example_similarity_def)
  from ranking_order [OF argsort_stable_valid h, of 2 "[Str ''A'', Str ''B'', Str ''C'']"]
  obtain rs where rs: "source_rows argsort_stable 2 [''a'', ''b'', ''c'']
        (Some [Str ''A'', Str ''B'', Str ''C'']) example_similarity 0 = Inr rs" by blast
  then show ?thesis
    using t by (simp add: source_rows_def example_similarity_def)
qed

theorem ranking_order_counterexample:
  "recommendations_csv (snd (main example_externals default_config three_articles empty_world))
     = Some [\<lparr>source_url = ''a'', target_url = ''c'', similarity_score = 1, anchor_text = Str ''C''\<rparr>,
             \<lparr>source_url = ''a'', target_url = ''b'', similarity_score = 1, anchor_text = Str ''B''\<rparr>,
             \<lparr>source_url = ''b'', target_url = ''c'', similarity_score = 1, anchor_text = Str ''C''\<rparr>,
             \<lparr>source_url = ''b'', target_url = ''a'', similarity_score = 1, anchor_text = Str ''A''\<rparr>,
             \<lparr>source_url = ''c'', target_url = ''b'', similarity_score = 1, anchor_text = Str ''B''\<rparr>,
             \<lparr>source_url = ''c'', target_url = ''a'', similarity_score = 1, anchor_text = Str ''A''\<rparr>]"
  by (simp add: eval_pipeline three_articles_def example_externals_def unit_encoder_def
        empty_world_def upt_rec [of 0] upt_rec [of 1] upt_rec [of 2] upt_rec [of 3])

text \<open>
  Claim C4 (self-exclusion). The mask \<open>-1\<close> is the least value a cosine can take, not a value
  below all of them. For a corpus of two documents whose vectors are opposite, every
  similarity in the second row equals the mask, and the run emits the row from \<open>b\<close> to \<open>b\<close>.
\<close>

theorem self_exclusion_failure:
  "fst (main opposing_externals default_config two_articles empty_world) = None
   \<and> recommendations_csv (snd (main opposing_externals default_config two_articles empty_world))
       = Some [\<lparr>source_url = ''a'', target_url = ''b'', similarity_score = - 1, anchor_text = Str ''B''\<rparr>,
               \<lparr>source_url = ''b'', target_url = ''b'', similarity_score = - 1, anchor_text = Str ''B''\<rparr>]"
  by (simp add: eval_pipeline two_articles_def opposing_externals_def alternating_encoder_def
        empty_world_def upt_rec [of 0] upt_rec [of 1] upt_rec [of 2] upt_rec [of 3])

text \<open>Self-exclusion when the sentinel is strictly below the other scores.\<close>

lemma self_not_selected:
  assumes "valid_argsort f" and "idx < length row" and "0 < k" and "k < length row"
    and "\<forall>j < length row. j \<noteq> idx \<longrightarrow> - 1 < row ! j"
  shows "idx \<notin> set (top_indices f k (row[idx := - 1]))"
proof
  let ?s = "row[idx := - 1]"
  let ?top = "top_indices f k ?s"
  assume sel: "idx \<in> set ?top"
  have "card (set ?top) = k"
    using top_indices_length [OF assms(1,3), of ?s] top_indices_distinct [OF assms(1), of k ?s]
      assms(4) by (simp add: distinct_card)
  then have "card (set ?top) < card {..<length row}" using assms(4) by simp
  moreover have "set ?top \<subseteq> {..<length row}"
    using top_indices_subset [OF assms(1), of k ?s] by simp
  ultimately obtain j where j: "j < length row" "j \<notin> set ?top"
    by (metis lessThan_iff subsetI subset_antisym less_irrefl)
  with sel have "j \<noteq> idx" by auto
  from top_indices_highest [OF assms(1) _ j(2) sel] j(1) have "?s ! j \<le> ?s ! idx" by simp
  with \<open>j \<noteq> idx\<close> assms(2) j(1) have "row ! j \<le> - 1" by simp
  with assms(5) j(1) \<open>j \<noteq> idx\<close> show False by fastforce
qed

text \<open>With two opposite vectors every sorting routine makes one source pick itself.\<close>

lemma permutation_of_two:
  assumes "is_argsort [a, b] p"
  shows "p = [0, 1] \<or> p = [1, 0]"
proof -
  from is_argsort_length [OF assms] obtain x y where p: "p = [x, y]"
    by (cases p; cases "tl p") auto
  from is_argsort_set [OF assms] p have "{x, y} = {0, 1}" by (auto simp: lessThan_Suc)
  moreover from is_argsort_distinct [OF assms] p have "x \<noteq> y" by simp
  ultimately have "(x = 0 \<and> y = 1) \<or> (x = 1 \<and> y = 0)" by (auto simp: doubleton_eq_iff)
  with p show ?thesis by auto
qed

lemma opposite_vectors_self_row:
  assumes "valid_argsort f"
  shows "\<exists>idx < 2. \<exists>rs. source_rows f 1 [''a'', ''b''] (Some [Str ''A'', Str ''B''])
             [[1, - 1], [- 1, 1]] idx = Inr rs
           \<and> (\<exists>r \<in> set rs. target_url r = source_url r)"
proof -
  from permutation_of_two [OF valid_argsortD [OF assms, of "[- 1, - 1]"]]
  have "f [- 1, - 1] = [0, 1] \<or> f [- 1, - 1] = [1, 0]" .
  then show ?thesis
  proof
    assume "f [- 1, - 1] = [0, 1]"
    then have "source_rows f 1 [''a'', ''b''] (Some [Str ''A'', Str ''B'']) [[1, - 1], [- 1, 1]] 1
        = Inr [\<lparr>source_url = ''b'', target_url = ''b'', similarity_score = - 1, anchor_text = Str ''B''\<rparr>]"
      by (simp add: source_rows_def top_indices_def last_k_def)
    then show ?thesis by (intro exI [of _ 1]) simp
  next
    assume "f [- 1, - 1] = [1, 0]"
    then have "source_rows f 1 [''a'', ''b''] (Some [Str ''A'', Str ''B'']) [[1, - 1], [- 1, 1]] 0
        = Inr [\<lparr>source_url = ''a'', target_url = ''a'', similarity_score = - 1, anchor_text = Str ''A''\<rparr>]"
      by (simp add: source_rows_def top_indices_def last_k_def)
    then show ?thesis by (intro exI [of _ 0]) simp
  qed
qed

end
